theory Spec2Isabelle
  imports Main
begin

section \<open>The wake session brain (services/wakeSessionBrain.ts)\<close>

text \<open>
  A shallow embedding of the class \<^verbatim>\<open>WakeSessionBrain\<close>: its two private fields are a
  record, every method that writes the state is a function from the brain to the updated
  brain, and the static tables are constants. Left out are the console logging, the text
  that \<^verbatim>\<open>generateInstruction\<close> returns with its helpers \<^verbatim>\<open>getToolGuidance\<close> and
  \<^verbatim>\<open>getVariationSuggestions\<close>, and \<^verbatim>\<open>getState\<close>: they read the state and never write it.
  The constructor keeps the caller's preferences object itself, so a voice command also
  changes it for the caller; the model holds the preferences by value.
\<close>

subsection \<open>Data model\<close>

datatype SessionPhase =
  brain_wakeup | soft_chat | encouragement | movement | verification | complete

datatype EngagementTool =
  greeting | how_did_you_sleep | weather | calendar | news | gratitude | plans_today
  | interesting_fact | gentle_story | body_awareness | breathing | direct_question
  | humor | coffee_mention | first_step_insight | accountability | guilt | challenge
  | sit_up_request | stand_up_request | walk_request | coffee_walk | movement_verify

datatype ResponsivenessLevel = silent | mumbling | minimal | conversing | alert

record Preferences =
  includeNews :: bool
  includeWeather :: bool
  includeCalendar :: bool
  includeStories :: bool

text \<open>
  The optional context strings are options; the fields carry the suffix \<open>_info\<close> because
  \<open>weather\<close>, \<open>calendar\<close> and \<open>news\<close> are already the names of engagement tools.
\<close>

record Context =
  weather_info :: "string option"
  calendar_info :: "string option"
  news_info :: "string option"
  currentTime :: string

text \<open>
  The counters are JavaScript numbers that only ever hold integers; they are \<open>int\<close> here,
  so that staying non-negative is a property to prove and not a property of the type.
  \<open>startTime\<close> is the clock reading \<^verbatim>\<open>new Date()\<close> taken by the constructor.
\<close>

record WakeSessionState =
  phase :: SessionPhase
  startTime :: nat
  toolsUsed :: "EngagementTool list"
  toolsAvailable :: "EngagementTool list"
  responsiveness :: ResponsivenessLevel
  silenceCount :: int
  responseCount :: int
  lastUserResponse :: "string option"
  escalationLevel :: int
  preferences :: Preferences
  session_context :: Context

record WakeSessionBrain =
  state :: WakeSessionState
  personaId :: string

subsection \<open>Tool priority by phase and persona\<close>

fun zen_guide_priority :: "SessionPhase \<Rightarrow> EngagementTool list" where
  "zen_guide_priority brain_wakeup =
     [greeting, breathing, body_awareness, how_did_you_sleep, gentle_story]"
| "zen_guide_priority soft_chat =
     [weather, body_awareness, gentle_story, gratitude, breathing]"
| "zen_guide_priority encouragement =
     [first_step_insight, body_awareness, sit_up_request, plans_today]"
| "zen_guide_priority movement = [sit_up_request, stand_up_request, walk_request]"
| "zen_guide_priority verification = [movement_verify, direct_question]"
| "zen_guide_priority complete = []"

fun morning_coach_priority :: "SessionPhase \<Rightarrow> EngagementTool list" where
  "morning_coach_priority brain_wakeup =
     [greeting, how_did_you_sleep, interesting_fact, news]"
| "morning_coach_priority soft_chat =
     [weather, coffee_mention, interesting_fact, humor, first_step_insight]"
| "morning_coach_priority encouragement =
     [coffee_mention, first_step_insight, calendar, plans_today, accountability]"
| "morning_coach_priority movement =
     [coffee_walk, first_step_insight, sit_up_request, stand_up_request, walk_request]"
| "morning_coach_priority verification = [movement_verify, coffee_mention]"
| "morning_coach_priority complete = []"

fun strict_sergeant_priority :: "SessionPhase \<Rightarrow> EngagementTool list" where
  "strict_sergeant_priority brain_wakeup = [greeting, news]"
| "strict_sergeant_priority soft_chat =
     [weather, calendar, direct_question, accountability]"
| "strict_sergeant_priority encouragement =
     [challenge, guilt, accountability, sit_up_request]"
| "strict_sergeant_priority movement = [stand_up_request, walk_request, challenge]"
| "strict_sergeant_priority verification = [movement_verify, challenge]"
| "strict_sergeant_priority complete = []"

text \<open>
  \<^verbatim>\<open>TOOL_PRIORITY\<close> is an object keyed by persona id. A key that is not one of the three
  personas gives \<^verbatim>\<open>undefined\<close>, or an inherited member of \<^verbatim>\<open>Object.prototype\<close> that has
  no phase entry; in both cases \<^verbatim>\<open>TOOL_PRIORITY[id]?.[phase]\<close> is \<^verbatim>\<open>undefined\<close>, which is
  \<open>None\<close> here.
\<close>

definition TOOL_PRIORITY :: "string \<Rightarrow> (SessionPhase \<Rightarrow> EngagementTool list) option" where
  "TOOL_PRIORITY =
     map_of [(''zen-guide'', zen_guide_priority),
             (''morning-coach'', morning_coach_priority),
             (''strict-sergeant'', strict_sergeant_priority)]"

subsection \<open>JavaScript strings\<close>

text \<open>
  A transcript is a list of 8-bit characters, read as the code units U+0000 to U+00FF.
  On these, \<^verbatim>\<open>toLowerCase\<close> maps A-Z and the Latin-1 capitals U+00C0 to U+00DE (without the
  multiplication sign U+00D7) to the letter 32 places later and leaves the rest alone; the
  white space of \<^verbatim>\<open>trim\<close> and of the regular expression class \<^verbatim>\<open>\s\<close> is tab, line feed,
  vertical tab, form feed, carriage return, space and the no-break space U+00A0.
\<close>

definition toLowerCase_char :: "char \<Rightarrow> char" where
  "toLowerCase_char c =
     (let n = (of_char c :: nat)
      in if (65 \<le> n \<and> n \<le> 90) \<or> (192 \<le> n \<and> n \<le> 222 \<and> n \<noteq> 215)
         then char_of (n + 32) else c)"

definition toLowerCase :: "string \<Rightarrow> string" where
  "toLowerCase s = map toLowerCase_char s"

definition is_white_space :: "char \<Rightarrow> bool" where
  "is_white_space c =
     (let n = (of_char c :: nat)
      in (9 \<le> n \<and> n \<le> 13) \<or> n = 32 \<or> n = 160)"

definition trim :: "string \<Rightarrow> string" where
  "trim s = rev (dropWhile is_white_space (rev (dropWhile is_white_space s)))"

text \<open>\<^verbatim>\<open>haystack.includes(needle)\<close>: the needle occurs at some position.\<close>

fun string_includes :: "string \<Rightarrow> string \<Rightarrow> bool" where
  "string_includes [] needle = (needle = [])"
| "string_includes (c # cs) needle =
     (take (length needle) (c # cs) = needle \<or> string_includes cs needle)"

text \<open>
  \<^verbatim>\<open>s.split(/\s+/)\<close>: the pieces between the maximal runs of white space. The first
  argument is the piece being read. A run at the start or at the end of the string leaves
  an empty piece there, and the empty string gives one empty piece.
\<close>

function split_white_space :: "string \<Rightarrow> string \<Rightarrow> string list" where
  "split_white_space piece [] = [piece]"
| "split_white_space piece (c # cs) =
     (if is_white_space c
      then piece # split_white_space [] (dropWhile is_white_space cs)
      else split_white_space (piece @ [c]) cs)"
  by pat_completeness auto
termination
  by (relation "measure (\<lambda>(piece, s). length s)")
     (auto simp: length_dropWhile_le less_Suc_eq_le)

text \<open>
  The two lazy patterns are \<^verbatim>\<open>/^(tok1|tok2|...)\.?$/i\<close>: the whole string is one of the
  tokens, in any letter case, with at most one full stop after it.
\<close>

definition lazyTokens1 :: "string list" where
  "lazyTokens1 =
     [''ok'', ''okay'', ''k'', ''yes'', ''yeah'', ''yea'', ''yep'', ''no'', ''nope'', ''nah'',
      ''mm'', ''mmm'', ''mhm'', ''hmm'', ''uh'', ''um'', ''ah'', ''oh'']"

definition lazyTokens2 :: "string list" where
  "lazyTokens2 = [''sure'', ''fine'', ''alright'', ''right'', ''cool'']"

definition test_token_pattern :: "string list \<Rightarrow> string \<Rightarrow> bool" where
  "test_token_pattern tokens s =
     (let l = toLowerCase s
      in l \<in> set tokens \<or> (l \<noteq> [] \<and> last l = CHR ''.'' \<and> butlast l \<in> set tokens))"

definition isLazy :: "string \<Rightarrow> bool" where
  "isLazy transcript =
     (let lower = toLowerCase (trim transcript)
      in test_token_pattern lazyTokens1 lower \<or> test_token_pattern lazyTokens2 lower)"

definition wordCount :: "string \<Rightarrow> int" where
  "wordCount transcript = int (length (split_white_space [] (trim transcript)))"

subsection \<open>The constructor\<close>

definition getAvailableTools :: "Preferences \<Rightarrow> EngagementTool list" where
  "getAvailableTools prefs =
     [greeting, how_did_you_sleep, gratitude, plans_today,
      interesting_fact, gentle_story, body_awareness, breathing, direct_question,
      humor, coffee_mention, first_step_insight, accountability, guilt, challenge,
      sit_up_request, stand_up_request, walk_request, coffee_walk, movement_verify]
     @ (if includeWeather prefs then [weather] else [])
     @ (if includeCalendar prefs then [calendar] else [])
     @ (if includeNews prefs then [news] else [])
     @ (if includeStories prefs then [gentle_story] else [])"

definition new_WakeSessionBrain ::
  "string \<Rightarrow> Preferences \<Rightarrow> Context \<Rightarrow> nat \<Rightarrow> WakeSessionBrain" where
  "new_WakeSessionBrain pid prefs ctx now =
     \<lparr> state =
         \<lparr> phase = brain_wakeup,
           startTime = now,
           toolsUsed = [],
           toolsAvailable = getAvailableTools prefs,
           responsiveness = silent,
           silenceCount = 0,
           responseCount = 0,
           lastUserResponse = None,
           escalationLevel = 0,
           preferences = prefs,
           session_context = ctx \<rparr>,
       personaId = pid \<rparr>"

subsection \<open>Recording what the user does\<close>

definition says_skip_news :: "string \<Rightarrow> bool" where
  "says_skip_news transcript =
     (let lower = toLowerCase transcript
      in string_includes lower ''skip news'' \<or> string_includes lower ''no news'')"

definition says_skip_weather :: "string \<Rightarrow> bool" where
  "says_skip_weather transcript =
     (let lower = toLowerCase transcript
      in string_includes lower ''skip weather'' \<or> string_includes lower ''no weather'')"

definition says_awake :: "string \<Rightarrow> bool" where
  "says_awake transcript =
     (let lower = toLowerCase transcript
      in string_includes lower ''i'm awake'' \<or> string_includes lower ''i am awake''
         \<or> string_includes lower ''i'm up'')"

definition checkVoiceCommands :: "string \<Rightarrow> WakeSessionState \<Rightarrow> WakeSessionState" where
  "checkVoiceCommands transcript s =
     (let s1 = (if says_skip_news transcript
                then s\<lparr>preferences := (preferences s)\<lparr>includeNews := False\<rparr>\<rparr> else s);
          s2 = (if says_skip_weather transcript
                then s1\<lparr>preferences := (preferences s1)\<lparr>includeWeather := False\<rparr>\<rparr> else s1)
      in if says_awake transcript then s2\<lparr>phase := verification\<rparr> else s2)"

definition classify :: "string \<Rightarrow> ResponsivenessLevel" where
  "classify transcript =
     (if isLazy transcript then minimal
      else if wordCount transcript \<le> 3 then conversing
      else if wordCount transcript \<le> 6 then conversing
      else alert)"

definition advance_on_engagement :: "WakeSessionState \<Rightarrow> WakeSessionState" where
  "advance_on_engagement s =
     (if phase s = brain_wakeup then s\<lparr>phase := soft_chat\<rparr>
      else if phase s = soft_chat \<and> responseCount s \<ge> 2 then s\<lparr>phase := encouragement\<rparr>
      else if phase s = encouragement \<and> responseCount s \<ge> 4 then s\<lparr>phase := movement\<rparr>
      else s)"

definition recordUserResponse_state :: "string \<Rightarrow> WakeSessionState \<Rightarrow> WakeSessionState" where
  "recordUserResponse_state transcript s =
     (let s1 = s\<lparr>responseCount := responseCount s + 1,
                 lastUserResponse := Some transcript\<rparr>;
          s2 = s1\<lparr>responsiveness := classify transcript\<rparr>;
          s3 = (if responsiveness s2 = conversing \<or> responsiveness s2 = alert
                then advance_on_engagement
                       (s2\<lparr>silenceCount := 0,
                           escalationLevel := max 0 (escalationLevel s2 - 1)\<rparr>)
                else if responsiveness s2 = minimal
                then s2\<lparr>silenceCount := max 0 (silenceCount s2 - 2),
                        escalationLevel := max 0 (escalationLevel s2 - 1)\<rparr>
                else s2)
      in checkVoiceCommands transcript s3)"

definition recordUserResponse :: "string \<Rightarrow> WakeSessionBrain \<Rightarrow> WakeSessionBrain" where
  "recordUserResponse transcript b =
     b\<lparr>state := recordUserResponse_state transcript (state b)\<rparr>"

definition recordSilence_state :: "WakeSessionState \<Rightarrow> WakeSessionState" where
  "recordSilence_state s =
     (let s1 = s\<lparr>silenceCount := silenceCount s + 1, responsiveness := silent\<rparr>
      in if phase s1 = brain_wakeup then
           (if silenceCount s1 \<ge> 4
            then s1\<lparr>phase := soft_chat, escalationLevel := 1\<rparr> else s1)
         else if phase s1 = soft_chat then
           (let s2 = (if silenceCount s1 \<ge> 3
                      then s1\<lparr>escalationLevel := min 2 (escalationLevel s1 + 1)\<rparr> else s1)
            in if silenceCount s2 \<ge> 6 then s2\<lparr>phase := encouragement\<rparr> else s2)
         else if phase s1 = encouragement then
           (let s2 = s1\<lparr>escalationLevel := min 3 (escalationLevel s1 + 1)\<rparr>
            in if silenceCount s2 \<ge> 8 then s2\<lparr>phase := movement\<rparr> else s2)
         else if phase s1 = movement then
           s1\<lparr>escalationLevel := min 4 (escalationLevel s1 + 1)\<rparr>
         else s1)"

definition recordSilence :: "WakeSessionBrain \<Rightarrow> WakeSessionBrain" where
  "recordSilence b = b\<lparr>state := recordSilence_state (state b)\<rparr>"

subsection \<open>Choosing the next tool\<close>

definition markToolUsed_state :: "EngagementTool \<Rightarrow> WakeSessionState \<Rightarrow> WakeSessionState" where
  "markToolUsed_state tool s =
     (if tool \<notin> set (toolsUsed s) then s\<lparr>toolsUsed := toolsUsed s @ [tool]\<rparr> else s)"

definition markToolUsed :: "EngagementTool \<Rightarrow> WakeSessionBrain \<Rightarrow> WakeSessionBrain" where
  "markToolUsed tool b = b\<lparr>state := markToolUsed_state tool (state b)\<rparr>"

text \<open>
  \<^verbatim>\<open>TOOL_PRIORITY[this.personaId]?.[this.state.phase] || TOOL_PRIORITY['morning-coach'][...]\<close>:
  an array is truthy even when empty, so the second list is taken only when the persona
  has no table.
\<close>

definition priority :: "WakeSessionBrain \<Rightarrow> EngagementTool list" where
  "priority b =
     (case TOOL_PRIORITY (personaId b) of
        Some table \<Rightarrow> table (phase (state b))
      | None \<Rightarrow> morning_coach_priority (phase (state b)))"

text \<open>The \<^verbatim>\<open>for (const tool of priority)\<close> loop with its early return.\<close>

fun first_fresh_tool ::
  "EngagementTool list \<Rightarrow> EngagementTool list \<Rightarrow> EngagementTool list \<Rightarrow> EngagementTool option"
where
  "first_fresh_tool used avail [] = None"
| "first_fresh_tool used avail (tool # rest) =
     (if tool \<notin> set used \<and> tool \<in> set avail then Some tool
      else first_fresh_tool used avail rest)"

definition movementRepeatables :: "EngagementTool list" where
  "movementRepeatables =
     [walk_request, stand_up_request, sit_up_request, coffee_walk,
      first_step_insight, direct_question, accountability]"

definition zenRepeatables :: "EngagementTool list" where
  "zenRepeatables = [breathing, body_awareness, gentle_story, gratitude, direct_question]"

definition generalRepeatables :: "EngagementTool list" where
  "generalRepeatables =
     [direct_question, coffee_mention, first_step_insight, interesting_fact,
      accountability, challenge, breathing, humor]"

definition repeatableTools :: "WakeSessionBrain \<Rightarrow> EngagementTool list" where
  "repeatableTools b =
     (if phase (state b) = movement then movementRepeatables
      else if personaId b = ''zen-guide'' then zenRepeatables
      else generalRepeatables)"

text \<open>
  The remainder \<^verbatim>\<open>a % n\<close> of JavaScript takes the sign of \<open>a\<close>, and reading an array at
  an index outside of it gives \<^verbatim>\<open>undefined\<close>. Both \<^verbatim>\<open>null\<close> and \<^verbatim>\<open>undefined\<close> are
  \<open>None\<close>: the callers only test the result for truth.
\<close>

definition js_rem :: "int \<Rightarrow> int \<Rightarrow> int" where
  "js_rem a n = (if a < 0 then - ((- a) mod n) else a mod n)"

definition js_index :: "'a list \<Rightarrow> int \<Rightarrow> 'a option" where
  "js_index xs i = (if 0 \<le> i \<and> i < int (length xs) then Some (xs ! nat i) else None)"

definition getNextTool :: "WakeSessionBrain \<Rightarrow> EngagementTool option" where
  "getNextTool b =
     (case first_fresh_tool (toolsUsed (state b)) (toolsAvailable (state b)) (priority b) of
        Some tool \<Rightarrow> Some tool
      | None \<Rightarrow>
          (let validRepeatables = filter (\<lambda>tool. tool \<in> set (priority b)) (repeatableTools b)
           in if length validRepeatables > 0
              then js_index validRepeatables
                     (js_rem (silenceCount (state b)) (int (length validRepeatables)))
              else if length (repeatableTools b) > 0
              then js_index (repeatableTools b)
                     (js_rem (silenceCount (state b)) (int (length (repeatableTools b))))
              else None))"

text \<open>
  \<^verbatim>\<open>generateInstruction\<close> reads the state to build its text and writes it in one place,
  its last statement \<^verbatim>\<open>if (nextTool) this.markToolUsed(nextTool)\<close>. The model keeps the
  state it leaves behind.
\<close>

definition generateInstruction :: "WakeSessionBrain \<Rightarrow> WakeSessionBrain" where
  "generateInstruction b =
     (case getNextTool b of Some nextTool \<Rightarrow> markToolUsed nextTool b | None \<Rightarrow> b)"

definition isComplete :: "WakeSessionBrain \<Rightarrow> bool" where
  "isComplete b = (phase (state b) = complete)"

definition markComplete :: "WakeSessionBrain \<Rightarrow> WakeSessionBrain" where
  "markComplete b = b\<lparr>state := (state b)\<lparr>phase := complete\<rparr>\<rparr>"

subsection \<open>Sequences of calls\<close>

datatype call =
  RecordUserResponse string
  | RecordSilence
  | MarkToolUsed EngagementTool
  | GenerateInstruction
  | MarkComplete

fun apply_call :: "call \<Rightarrow> WakeSessionBrain \<Rightarrow> WakeSessionBrain" where
  "apply_call (RecordUserResponse transcript) b = recordUserResponse transcript b"
| "apply_call RecordSilence b = recordSilence b"
| "apply_call (MarkToolUsed tool) b = markToolUsed tool b"
| "apply_call GenerateInstruction b = generateInstruction b"
| "apply_call MarkComplete b = markComplete b"

fun run_calls :: "call list \<Rightarrow> WakeSessionBrain \<Rightarrow> WakeSessionBrain" where
  "run_calls [] b = b"
| "run_calls (c # cs) b = run_calls cs (apply_call c b)"

text \<open>The fixed order of the phases.\<close>

fun phase_rank :: "SessionPhase \<Rightarrow> nat" where
  "phase_rank brain_wakeup = 0"
| "phase_rank soft_chat = 1"
| "phase_rank encouragement = 2"
| "phase_rank movement = 3"
| "phase_rank verification = 4"
| "phase_rank complete = 5"

text \<open>The phases seen along a sequence of calls: before the first call and after each.\<close>

fun observed_phases :: "call list \<Rightarrow> WakeSessionBrain \<Rightarrow> SessionPhase list" where
  "observed_phases [] b = [phase (state b)]"
| "observed_phases (c # cs) b = phase (state b) # observed_phases cs (apply_call c b)"

fun is_awake_call :: "call \<Rightarrow> bool" where
  "is_awake_call (RecordUserResponse transcript) = says_awake transcript"
| "is_awake_call RecordSilence = False"
| "is_awake_call (MarkToolUsed tool) = False"
| "is_awake_call GenerateInstruction = False"
| "is_awake_call MarkComplete = False"

subsection \<open>Notions of the specification\<close>

text \<open>The range that the data model gives to the counters.\<close>

definition counters_in_range :: "WakeSessionState \<Rightarrow> bool" where
  "counters_in_range s =
     (0 \<le> escalationLevel s \<and> escalationLevel s \<le> 4 \<and> 0 \<le> silenceCount s)"

text \<open>
  A lazy acknowledgment in the words of the specification: the trimmed, lowercased
  transcript is one of the acknowledgment tokens, alone or with one full stop after it.
\<close>

definition lazy_acknowledgment_tokens :: "string list" where
  "lazy_acknowledgment_tokens =
     [''ok'', ''okay'', ''k'', ''yes'', ''yeah'', ''yea'', ''yep'', ''no'', ''nope'', ''nah'',
      ''mm'', ''mmm'', ''mhm'', ''hmm'', ''uh'', ''um'', ''ah'', ''oh'',
      ''sure'', ''fine'', ''alright'', ''right'', ''cool'']"

definition lazy_acknowledgment :: "string \<Rightarrow> bool" where
  "lazy_acknowledgment transcript =
     list_ex (\<lambda>token. toLowerCase (trim transcript) = token
                    \<or> toLowerCase (trim transcript) = token @ ''.'')
       lazy_acknowledgment_tokens"

text \<open>
  The number of white-space separated words of a transcript: the number of maximal runs of
  characters that are not white space. The flag says whether the character before was part
  of a word.
\<close>

fun count_words :: "bool \<Rightarrow> string \<Rightarrow> nat" where
  "count_words in_word [] = 0"
| "count_words in_word (c # cs) =
     (if is_white_space c then count_words False cs
      else (if in_word then 0 else 1) + count_words True cs)"

definition whitespace_separated_words :: "string \<Rightarrow> nat" where
  "whitespace_separated_words transcript = count_words False transcript"

text \<open>
  The tool selection in the words of the specification: the persona's curated list with the
  morning-coach list as the default, the first curated tool that is unused and available,
  and otherwise the rotation through a repeatable pool by the silence count.
\<close>

definition curated_list :: "WakeSessionBrain \<Rightarrow> EngagementTool list" where
  "curated_list b =
     (if personaId b = ''zen-guide'' then zen_guide_priority (phase (state b))
      else if personaId b = ''strict-sergeant'' then strict_sergeant_priority (phase (state b))
      else morning_coach_priority (phase (state b)))"

definition applicable_pool :: "WakeSessionBrain \<Rightarrow> EngagementTool list" where
  "applicable_pool b =
     (if phase (state b) = movement then movementRepeatables
      else if personaId b = ''zen-guide'' then zenRepeatables
      else generalRepeatables)"

definition getNextTool_spec :: "WakeSessionBrain \<Rightarrow> EngagementTool option" where
  "getNextTool_spec b =
     (case find (\<lambda>tool. tool \<notin> set (toolsUsed (state b)) \<and> tool \<in> set (toolsAvailable (state b)))
             (curated_list b) of
        Some tool \<Rightarrow> Some tool
      | None \<Rightarrow>
          (let restricted = filter (\<lambda>tool. tool \<in> set (curated_list b)) (applicable_pool b);
               rotation = (if restricted \<noteq> [] then restricted else applicable_pool b)
           in if rotation = [] then None
              else Some (rotation ! (nat (silenceCount (state b)) mod length rotation))))"

text \<open>
  The curated tools of the current phase that are still unused and available, in the order
  of the curated list, and the brain with another list of used tools and nothing else changed.
\<close>

definition fresh_curated :: "WakeSessionBrain \<Rightarrow> EngagementTool list" where
  "fresh_curated b =
     filter (\<lambda>tool. tool \<notin> set (toolsUsed (state b)) \<and> tool \<in> set (toolsAvailable (state b)))
       (curated_list b)"

definition with_toolsUsed :: "EngagementTool list \<Rightarrow> WakeSessionBrain \<Rightarrow> WakeSessionBrain" where
  "with_toolsUsed used b = b\<lparr>state := (state b)\<lparr>toolsUsed := used\<rparr>\<rparr>"

text \<open>A session to run the operations on: all content enabled, no content supplied.\<close>

definition all_preferences :: Preferences where
  "all_preferences =
     \<lparr>includeNews = True, includeWeather = True, includeCalendar = True,
      includeStories = True\<rparr>"

definition no_preferences :: Preferences where
  "no_preferences =
     \<lparr>includeNews = False, includeWeather = False, includeCalendar = False,
      includeStories = False\<rparr>"

definition empty_context :: Context where
  "empty_context =
     \<lparr>weather_info = None, calendar_info = None, news_info = None,
      currentTime = ''07:00''\<rparr>"

definition fresh_coach :: WakeSessionBrain where
  "fresh_coach = new_WakeSessionBrain ''morning-coach'' all_preferences empty_context 0"

text \<open>
  Two sessions in the middle of a conversation: one in \<open>soft_chat\<close> after a first answer,
  one in \<open>soft_chat\<close> with every curated tool of that phase used.
\<close>

definition chatting_coach :: WakeSessionBrain where
  "chatting_coach =
     fresh_coach\<lparr>state := (state fresh_coach)
       \<lparr>phase := soft_chat, responseCount := 1, silenceCount := 1,
        escalationLevel := 0\<rparr>\<rparr>"

definition rotating_coach :: WakeSessionBrain where
  "rotating_coach =
     fresh_coach\<lparr>state := (state fresh_coach)
       \<lparr>phase := soft_chat, silenceCount := 5,
        toolsUsed := [greeting, weather, coffee_mention, interesting_fact, humor,
                      first_step_insight]\<rparr>\<rparr>"

section \<open>Verified properties\<close>

subsection \<open>What each operation leaves alone\<close>

lemma checkVoiceCommands_keeps:
  "silenceCount (checkVoiceCommands t s) = silenceCount s"
  "escalationLevel (checkVoiceCommands t s) = escalationLevel s"
  "responseCount (checkVoiceCommands t s) = responseCount s"
  "responsiveness (checkVoiceCommands t s) = responsiveness s"
  "lastUserResponse (checkVoiceCommands t s) = lastUserResponse s"
  "toolsUsed (checkVoiceCommands t s) = toolsUsed s"
  "toolsAvailable (checkVoiceCommands t s) = toolsAvailable s"
  "session_context (checkVoiceCommands t s) = session_context s"
  "startTime (checkVoiceCommands t s) = startTime s"
  by (simp_all add: checkVoiceCommands_def Let_def)

lemma checkVoiceCommands_phase:
  "phase (checkVoiceCommands t s) = (if says_awake t then verification else phase s)"
  by (simp add: checkVoiceCommands_def Let_def)

lemma advance_on_engagement_keeps:
  "silenceCount (advance_on_engagement s) = silenceCount s"
  "escalationLevel (advance_on_engagement s) = escalationLevel s"
  "responseCount (advance_on_engagement s) = responseCount s"
  "responsiveness (advance_on_engagement s) = responsiveness s"
  "lastUserResponse (advance_on_engagement s) = lastUserResponse s"
  "toolsUsed (advance_on_engagement s) = toolsUsed s"
  "toolsAvailable (advance_on_engagement s) = toolsAvailable s"
  "preferences (advance_on_engagement s) = preferences s"
  "session_context (advance_on_engagement s) = session_context s"
  "startTime (advance_on_engagement s) = startTime s"
  by (simp_all add: advance_on_engagement_def)

subsection \<open>The counters stay in range\<close>

lemma recordSilence_state_range:
  "counters_in_range s \<Longrightarrow> counters_in_range (recordSilence_state s)"
  by (auto simp: counters_in_range_def recordSilence_state_def Let_def)

lemma recordUserResponse_state_range:
  "counters_in_range s \<Longrightarrow> counters_in_range (recordUserResponse_state t s)"
  by (auto simp: counters_in_range_def recordUserResponse_state_def Let_def
      checkVoiceCommands_keeps advance_on_engagement_keeps)

lemma markToolUsed_state_range:
  "counters_in_range (markToolUsed_state tool s) = counters_in_range s"
  by (simp add: counters_in_range_def markToolUsed_state_def)

lemma phase_update_range:
  "counters_in_range (s\<lparr>phase := p\<rparr>) = counters_in_range s"
  by (simp add: counters_in_range_def)

lemma apply_call_range:
  "counters_in_range (state b) \<Longrightarrow> counters_in_range (state (apply_call c b))"
  by (cases c)
     (simp_all add: recordUserResponse_def recordSilence_def markToolUsed_def
        generateInstruction_def markComplete_def recordSilence_state_range
        recordUserResponse_state_range markToolUsed_state_range phase_update_range
        split: option.splits)

lemma run_calls_range:
  "counters_in_range (state b) \<Longrightarrow> counters_in_range (state (run_calls cs b))"
  by (induction cs arbitrary: b) (simp_all add: apply_call_range)

lemma new_WakeSessionBrain_range:
  "counters_in_range (state (new_WakeSessionBrain pid prefs ctx now))"
  by (simp add: counters_in_range_def new_WakeSessionBrain_def)

text \<open>
  Claim C7. From a freshly created session, after every finite sequence of calls the
  escalation level lies between 0 and 4 and the silence count is not negative. The
  sequence \<open>cs\<close> is arbitrary, so the bound holds after each call of a sequence (each
  prefix is a sequence), for sequences of \<^verbatim>\<open>recordSilence\<close> and \<^verbatim>\<open>recordUserResponse\<close>
  with any transcript, and also when the other three operations are mixed in.
\<close>

theorem counters_stay_clamped:
  "0 \<le> escalationLevel (state (run_calls cs (new_WakeSessionBrain pid prefs ctx now)))
   \<and> escalationLevel (state (run_calls cs (new_WakeSessionBrain pid prefs ctx now))) \<le> 4
   \<and> 0 \<le> silenceCount (state (run_calls cs (new_WakeSessionBrain pid prefs ctx now)))"
  using run_calls_range [OF new_WakeSessionBrain_range, of cs pid prefs ctx now]
  by (simp add: counters_in_range_def)

subsection \<open>Scenario A: four silences\<close>

text \<open>
  Claim C8. A fresh session of the persona morning-coach, whatever its preferences and
  context, is still in \<open>brain_wakeup\<close> with escalation level 0 after each of the first three
  calls of \<^verbatim>\<open>recordSilence\<close>; the fourth call leaves it in \<open>soft_chat\<close> with escalation
  level 1 and silence count 4.
\<close>

theorem scenario_A_four_silences:
  "let b0 = new_WakeSessionBrain ''morning-coach'' prefs ctx now;
       b1 = recordSilence b0; b2 = recordSilence b1;
       b3 = recordSilence b2; b4 = recordSilence b3
   in phase (state b0) = brain_wakeup \<and> silenceCount (state b0) = 0
    \<and> responseCount (state b0) = 0 \<and> escalationLevel (state b0) = 0
    \<and> phase (state b1) = brain_wakeup \<and> escalationLevel (state b1) = 0
    \<and> phase (state b2) = brain_wakeup \<and> escalationLevel (state b2) = 0
    \<and> phase (state b3) = brain_wakeup \<and> escalationLevel (state b3) = 0
    \<and> phase (state b4) = soft_chat \<and> escalationLevel (state b4) = 1
    \<and> silenceCount (state b4) = 4"
proof -
  let ?b = "\<lambda>n p e.
    \<lparr> state = \<lparr> phase = p, startTime = now, toolsUsed = [],
                toolsAvailable = getAvailableTools prefs, responsiveness = silent,
                silenceCount = n, responseCount = 0, lastUserResponse = None,
                escalationLevel = e, preferences = prefs, session_context = ctx \<rparr>,
      personaId = ''morning-coach'' \<rparr>"
  have s0: "new_WakeSessionBrain ''morning-coach'' prefs ctx now = ?b 0 brain_wakeup 0"
    by (simp add: new_WakeSessionBrain_def)
  have s1: "recordSilence (?b 0 brain_wakeup 0) = ?b 1 brain_wakeup 0"
    by (simp add: recordSilence_def recordSilence_state_def)
  have s2: "recordSilence (?b 1 brain_wakeup 0) = ?b 2 brain_wakeup 0"
    by (simp add: recordSilence_def recordSilence_state_def)
  have s3: "recordSilence (?b 2 brain_wakeup 0) = ?b 3 brain_wakeup 0"
    by (simp add: recordSilence_def recordSilence_state_def)
  have s4: "recordSilence (?b 3 brain_wakeup 0) = ?b 4 soft_chat 1"
    by (simp add: recordSilence_def recordSilence_state_def)
  show ?thesis
    unfolding Let_def s0 s1 s2 s3 s4 by simp
qed

subsection \<open>The responsiveness level that is never reached\<close>

lemma classify_not_mumbling: "classify t \<noteq> mumbling"
  by (simp add: classify_def)

lemma apply_call_not_mumbling:
  "responsiveness (state b) \<noteq> mumbling \<Longrightarrow>
   responsiveness (state (apply_call c b)) \<noteq> mumbling"
  by (cases c)
     (simp_all add: recordUserResponse_def recordUserResponse_state_def Let_def
        checkVoiceCommands_keeps advance_on_engagement_keeps classify_not_mumbling
        recordSilence_def recordSilence_state_def markToolUsed_def markToolUsed_state_def
        generateInstruction_def markComplete_def split: option.splits)

lemma run_calls_not_mumbling:
  "responsiveness (state b) \<noteq> mumbling \<Longrightarrow>
   responsiveness (state (run_calls cs b)) \<noteq> mumbling"
  by (induction cs arbitrary: b) (simp_all add: apply_call_not_mumbling)

text \<open>
  Claim C10. In every state reached from a new session by a sequence of
  \<^verbatim>\<open>recordUserResponse\<close>, \<^verbatim>\<open>recordSilence\<close>, \<^verbatim>\<open>markToolUsed\<close>, \<^verbatim>\<open>generateInstruction\<close> and
  \<^verbatim>\<open>markComplete\<close> calls, the responsiveness is not \<open>mumbling\<close>, although the type has
  that value.
\<close>

theorem responsiveness_never_mumbling:
  "responsiveness (state (run_calls cs (new_WakeSessionBrain pid prefs ctx now))) \<noteq> mumbling"
  by (rule run_calls_not_mumbling) (simp add: new_WakeSessionBrain_def)

subsection \<open>The order of the phases\<close>

lemma advance_on_engagement_rank:
  "phase_rank (phase s) \<le> phase_rank (phase (advance_on_engagement s))"
  by (simp add: advance_on_engagement_def)

lemma recordUserResponse_state_awake:
  "says_awake t \<Longrightarrow> phase (recordUserResponse_state t s) = verification"
  by (simp add: recordUserResponse_state_def Let_def checkVoiceCommands_phase)

lemma recordUserResponse_state_rank:
  assumes "\<not> says_awake t"
  shows "phase_rank (phase s) \<le> phase_rank (phase (recordUserResponse_state t s))"
proof -
  let ?s = "s\<lparr>responseCount := responseCount s + 1, lastUserResponse := Some t,
              responsiveness := classify t, silenceCount := 0,
              escalationLevel := max 0 (escalationLevel s - 1)\<rparr>"
  have "phase_rank (phase ?s) \<le> phase_rank (phase (advance_on_engagement ?s))"
    by (rule advance_on_engagement_rank)
  then show ?thesis
    using assms
    by (simp add: recordUserResponse_state_def Let_def checkVoiceCommands_phase)
qed

lemma recordSilence_state_rank:
  "phase_rank (phase s) \<le> phase_rank (phase (recordSilence_state s))"
  by (simp add: recordSilence_state_def Let_def)

lemma markToolUsed_state_phase: "phase (markToolUsed_state tool s) = phase s"
  by (simp add: markToolUsed_state_def)

lemma phase_rank_le_complete: "phase_rank p \<le> 5"
  by (cases p) simp_all

lemma apply_call_phase_step:
  "if is_awake_call c then phase (state (apply_call c b)) = verification
   else phase_rank (phase (state b)) \<le> phase_rank (phase (state (apply_call c b)))"
proof (cases c)
  case (RecordUserResponse t)
  then show ?thesis
    by (simp add: recordUserResponse_def recordUserResponse_state_awake
        recordUserResponse_state_rank)
next
  case RecordSilence
  then show ?thesis by (simp add: recordSilence_def recordSilence_state_rank)
next
  case (MarkToolUsed tool)
  then show ?thesis by (simp add: markToolUsed_def markToolUsed_state_phase)
next
  case GenerateInstruction
  then show ?thesis
    by (simp add: generateInstruction_def markToolUsed_def markToolUsed_state_phase
        split: option.splits)
next
  case MarkComplete
  then show ?thesis by (simp add: markComplete_def phase_rank_le_complete)
qed

lemma observed_phases_first: "observed_phases cs b ! 0 = phase (state b)"
  by (cases cs) simp_all

lemma phase_rank_above_verification: "4 < phase_rank p \<Longrightarrow> p = complete"
  by (cases p) simp_all

lemma observed_phases_step:
  "i < length cs \<Longrightarrow>
   (if is_awake_call (cs ! i)
    then observed_phases cs b ! Suc i = verification
    else phase_rank (observed_phases cs b ! i) \<le> phase_rank (observed_phases cs b ! Suc i))"
proof (induction cs arbitrary: b i)
  case Nil
  then show ?case by simp
next
  case (Cons c cs)
  show ?case
  proof (cases i)
    case 0
    then show ?thesis
      using apply_call_phase_step [of c b] by (simp add: observed_phases_first)
  next
    case (Suc j)
    then have "j < length cs" using Cons.prems by simp
    from Cons.IH [OF this, of "apply_call c b"] show ?thesis
      using Suc by simp
  qed
qed

text \<open>
  Claim C1, as the code has it. Along every sequence of calls, from every session state, a
  call that is not an utterance with one of the phrases "i'm awake", "i am awake", "i'm up"
  never lowers the phase in the order brain_wakeup, soft_chat, encouragement, movement,
  verification, complete; an utterance with such a phrase always ends in \<open>verification\<close>,
  from every phase, also from \<open>complete\<close>. So the only call that lowers the phase is such
  an utterance in phase \<open>complete\<close>. Position \<open>i\<close> of \<open>observed_phases\<close> is the phase before
  call \<open>i\<close>, position \<open>i + 1\<close> the phase after it.
\<close>

theorem phase_order_amended:
  assumes "i < length cs"
  shows "(if is_awake_call (cs ! i)
          then observed_phases cs b ! Suc i = verification
          else phase_rank (observed_phases cs b ! i)
                 \<le> phase_rank (observed_phases cs b ! Suc i))
         \<and> (phase_rank (observed_phases cs b ! Suc i) < phase_rank (observed_phases cs b ! i)
              \<longrightarrow> is_awake_call (cs ! i) \<and> observed_phases cs b ! i = complete
                  \<and> observed_phases cs b ! Suc i = verification)"
proof (cases "is_awake_call (cs ! i)")
  case True
  with observed_phases_step [OF assms, of b]
  have v: "observed_phases cs b ! Suc i = verification" by simp
  have "4 < phase_rank (observed_phases cs b ! i) \<longrightarrow> observed_phases cs b ! i = complete"
    by (simp add: phase_rank_above_verification)
  with True v show ?thesis by simp
next
  case False
  with observed_phases_step [OF assms, of b] show ?thesis by simp
qed

lemma says_awake_im_up: "says_awake ''I'm up''"
  by code_simp

lemma fresh_coach_phase: "phase (state fresh_coach) = brain_wakeup"
  by (simp add: fresh_coach_def new_WakeSessionBrain_def)

text \<open>
  The claim as written allows the jump to \<open>verification\<close> only from an earlier phase. A
  session marked complete that then hears "I'm up" goes back from \<open>complete\<close> to
  \<open>verification\<close>.
\<close>

theorem phase_regresses_from_complete:
  "observed_phases [MarkComplete, RecordUserResponse ''I'm up''] fresh_coach
   = [brain_wakeup, complete, verification]
   \<and> phase_rank verification < phase_rank complete"
  by (simp add: fresh_coach_phase markComplete_def recordUserResponse_def
      recordUserResponse_state_awake says_awake_im_up)

text \<open>
  The same run, read through the theorem: call 0 marks the session complete and raises the
  phase, call 1 is the utterance.
\<close>

theorem phase_order_amended_witness:
  "(0::nat) < length [MarkComplete, RecordUserResponse ''I'm up'']
   \<and> \<not> is_awake_call ([MarkComplete, RecordUserResponse ''I'm up''] ! 0)
   \<and> phase_rank (observed_phases [MarkComplete, RecordUserResponse ''I'm up''] fresh_coach ! 0)
       \<le> phase_rank
            (observed_phases [MarkComplete, RecordUserResponse ''I'm up''] fresh_coach ! Suc 0)
   \<and> (1::nat) < length [MarkComplete, RecordUserResponse ''I'm up'']
   \<and> is_awake_call ([MarkComplete, RecordUserResponse ''I'm up''] ! 1)
   \<and> observed_phases [MarkComplete, RecordUserResponse ''I'm up''] fresh_coach ! 1 = complete
   \<and> observed_phases [MarkComplete, RecordUserResponse ''I'm up''] fresh_coach ! Suc 1
       = verification"
proof -
  have h0: "(0::nat) < length [MarkComplete, RecordUserResponse ''I'm up'']" by simp
  have h1: "(1::nat) < length [MarkComplete, RecordUserResponse ''I'm up'']" by simp
  have a0: "\<not> is_awake_call ([MarkComplete, RecordUserResponse ''I'm up''] ! 0)" by simp
  have a1: "is_awake_call ([MarkComplete, RecordUserResponse ''I'm up''] ! 1)"
    by (simp add: says_awake_im_up)
  have c: "observed_phases [MarkComplete, RecordUserResponse ''I'm up''] fresh_coach ! 1
           = complete"
    by (simp add: markComplete_def)
  from phase_order_amended [OF h0, of fresh_coach] a0
  have step0:
    "phase_rank (observed_phases [MarkComplete, RecordUserResponse ''I'm up''] fresh_coach ! 0)
     \<le> phase_rank
          (observed_phases [MarkComplete, RecordUserResponse ''I'm up''] fresh_coach ! Suc 0)"
    by simp
  from phase_order_amended [OF h1, of fresh_coach] a1
  have step1:
    "observed_phases [MarkComplete, RecordUserResponse ''I'm up''] fresh_coach ! Suc 1
     = verification"
    by simp
  from h0 a0 step0 h1 a1 c step1 show ?thesis by blast
qed

subsection \<open>Counting words\<close>

lemma count_words_dropWhile:
  "count_words False (dropWhile is_white_space s) = count_words False s"
  by (induction s) simp_all

lemma count_words_all_white_space:
  "list_all is_white_space ws \<Longrightarrow> count_words in_word ws = 0"
  by (induction ws arbitrary: in_word) simp_all

lemma count_words_append_white_space:
  "list_all is_white_space ws \<Longrightarrow> count_words in_word (s @ ws) = count_words in_word s"
  by (induction s arbitrary: in_word) (simp_all add: count_words_all_white_space)

lemma trim_decomposition:
  "dropWhile is_white_space s
   = trim s @ rev (takeWhile is_white_space (rev (dropWhile is_white_space s)))"
proof -
  let ?r = "rev (dropWhile is_white_space s)"
  have "trim s @ rev (takeWhile is_white_space ?r)
        = rev (takeWhile is_white_space ?r @ dropWhile is_white_space ?r)"
    unfolding trim_def by (simp only: rev_append)
  also have "\<dots> = rev ?r" by (simp only: takeWhile_dropWhile_id)
  also have "\<dots> = dropWhile is_white_space s" by (simp only: rev_rev_ident)
  finally show ?thesis by (rule sym)
qed

lemma count_words_trim: "count_words False (trim s) = count_words False s"
proof -
  let ?ws = "rev (takeWhile is_white_space (rev (dropWhile is_white_space s)))"
  have "list_all is_white_space ?ws"
    by (simp add: list_all_iff) (metis set_takeWhileD)
  then have "count_words False (trim s @ ?ws) = count_words False (trim s)"
    by (rule count_words_append_white_space)
  then have "count_words False (dropWhile is_white_space s) = count_words False (trim s)"
    using trim_decomposition [of s] by simp
  then show ?thesis by (simp add: count_words_dropWhile)
qed

lemma count_words_starts_word:
  "x \<noteq> [] \<Longrightarrow> \<not> is_white_space (hd x) \<Longrightarrow>
   count_words False x = 1 + count_words True x"
  by (cases x) simp_all

lemma last_dropWhile:
  "dropWhile P xs \<noteq> [] \<Longrightarrow> last (dropWhile P xs) = last xs"
  by (induction xs) (auto split: if_splits)

lemma length_split_white_space:
  "s = [] \<or> \<not> is_white_space (last s) \<Longrightarrow>
   length (split_white_space piece s) = 1 + count_words True s"
proof (induction piece s rule: split_white_space.induct)
  case (1 piece)
  then show ?case by simp
next
  case (2 piece c cs)
  show ?case
  proof (cases "is_white_space c")
    case False
    then have "cs = [] \<or> \<not> is_white_space (last cs)"
      using "2.prems" by (auto split: if_splits)
    with False "2.IH"(2) show ?thesis by simp
  next
    case True
    let ?d = "dropWhile is_white_space cs"
    from True "2.prems" have cs: "cs \<noteq> []" "\<not> is_white_space (last cs)"
      by (auto split: if_splits)
    have d: "?d \<noteq> []"
    proof
      assume "?d = []"
      then have "\<forall>x\<in>set cs. is_white_space x" by (simp add: dropWhile_eq_Nil_conv)
      with cs show False using last_in_set by blast
    qed
    then have "\<not> is_white_space (last ?d)" using cs by (simp add: last_dropWhile)
    with True "2.IH"(1) have "length (split_white_space [] ?d) = 1 + count_words True ?d"
      by simp
    moreover have "\<not> is_white_space (hd ?d)" using d by (simp add: hd_dropWhile)
    then have "count_words False ?d = 1 + count_words True ?d"
      using d by (simp add: count_words_starts_word)
    ultimately show ?thesis
      using True by (simp add: count_words_dropWhile)
  qed
qed

lemma trim_ends:
  assumes "trim s \<noteq> []"
  shows "\<not> is_white_space (hd (trim s))" and "\<not> is_white_space (last (trim s))"
proof -
  let ?s = "dropWhile is_white_space s"
  let ?r = "dropWhile is_white_space (rev ?s)"
  from assms have r: "?r \<noteq> []" by (simp add: trim_def)
  have s: "?s \<noteq> []"
  proof
    assume "?s = []"
    then have "?r = []" by (simp only: rev.simps dropWhile.simps)
    with r show False by (rule notE)
  qed
  have "hd (trim s) = last ?r" using r by (simp add: trim_def hd_rev)
  also have "\<dots> = last (rev ?s)" using r by (rule last_dropWhile)
  also have "\<dots> = hd ?s" using s by (simp add: last_rev)
  finally show "\<not> is_white_space (hd (trim s))" using s by (simp add: hd_dropWhile)
  have "last (trim s) = hd ?r" using r by (simp add: trim_def last_rev)
  then show "\<not> is_white_space (last (trim s))" using r by (simp add: hd_dropWhile)
qed

lemma wordCount_words:
  assumes "trim t \<noteq> []"
  shows "wordCount t = int (whitespace_separated_words t)"
proof -
  have "length (split_white_space [] (trim t)) = 1 + count_words True (trim t)"
    using trim_ends(2) [OF assms] by (simp add: length_split_white_space)
  also have "\<dots> = count_words False (trim t)"
    using assms trim_ends(1) [OF assms] by (simp add: count_words_starts_word)
  finally show ?thesis
    by (simp add: wordCount_def whitespace_separated_words_def count_words_trim)
qed

lemma recordUserResponse_responsiveness:
  "responsiveness (state (recordUserResponse t b)) = classify t"
  by (simp add: recordUserResponse_def recordUserResponse_state_def Let_def
      checkVoiceCommands_keeps advance_on_engagement_keeps)

text \<open>
  The two regular expressions of the code against the tokens of the specification: on a
  lowercased string the case-insensitive match is an equality with a token, or with a token
  and a full stop.
\<close>

lemma toLowerCase_char_idem: "toLowerCase_char (toLowerCase_char c) = toLowerCase_char c"
  by (auto simp: toLowerCase_char_def Let_def)

lemma toLowerCase_idem: "toLowerCase (toLowerCase s) = toLowerCase s"
  by (simp add: toLowerCase_def toLowerCase_char_idem)

lemma snoc_iff_butlast_last:
  "(l \<noteq> [] \<and> last l = x \<and> butlast l \<in> S) = (\<exists>token\<in>S. l = token @ [x])"
proof
  assume a: "l \<noteq> [] \<and> last l = x \<and> butlast l \<in> S"
  then have "l = butlast l @ [x]" by auto
  with a show "\<exists>token\<in>S. l = token @ [x]" by blast
next
  assume "\<exists>token\<in>S. l = token @ [x]"
  then show "l \<noteq> [] \<and> last l = x \<and> butlast l \<in> S" by auto
qed

lemma test_token_pattern_lowered:
  "test_token_pattern tokens (toLowerCase s)
   = (\<exists>token\<in>set tokens. toLowerCase s = token \<or> toLowerCase s = token @ ''.'')"
  using snoc_iff_butlast_last [of "toLowerCase s" "CHR ''.''" "set tokens"]
  by (auto simp: test_token_pattern_def Let_def toLowerCase_idem)

lemma lazy_acknowledgment_tokens_split:
  "lazy_acknowledgment_tokens = lazyTokens1 @ lazyTokens2"
  by (simp add: lazy_acknowledgment_tokens_def lazyTokens1_def lazyTokens2_def)

lemma isLazy_lazy_acknowledgment: "isLazy t = lazy_acknowledgment t"
  by (auto simp: isLazy_def Let_def test_token_pattern_lowered lazy_acknowledgment_def
      lazy_acknowledgment_tokens_split list_ex_iff)

text \<open>
  Claim C2, as the code has it. For a transcript that is not empty and not only white
  space, \<^verbatim>\<open>recordUserResponse\<close> sets the responsiveness to \<open>minimal\<close> when the trimmed,
  lowercased transcript is one of the 23 acknowledgment tokens, alone or followed by one
  full stop and by no other punctuation; otherwise to \<open>conversing\<close> when the transcript has
  at most 6 white-space separated words; otherwise to \<open>alert\<close>.
\<close>

theorem responsiveness_classification_amended:
  assumes "trim t \<noteq> []"
  shows "responsiveness (state (recordUserResponse t b)) =
           (if lazy_acknowledgment t then minimal
            else if whitespace_separated_words t \<le> 6 then conversing
            else alert)"
  using wordCount_words [OF assms]
  by (simp add: recordUserResponse_responsiveness classify_def isLazy_lazy_acknowledgment)

text \<open>
  The claim as written takes a token with any trailing punctuation for a lazy
  acknowledgment. The token "ok" with an exclamation mark is classified \<open>conversing\<close>, and
  it moves a new session on to \<open>soft_chat\<close>.
\<close>

theorem trailing_exclamation_mark_not_lazy:
  "''ok'' \<in> set lazy_acknowledgment_tokens
   \<and> ''ok!'' = ''ok'' @ ''!''
   \<and> trim ''ok!'' \<noteq> []
   \<and> responsiveness (state (recordUserResponse ''ok!'' fresh_coach)) = conversing
   \<and> phase (state fresh_coach) = brain_wakeup
   \<and> phase (state (recordUserResponse ''ok!'' fresh_coach)) = soft_chat"
  by code_simp

text \<open>
  Scenario B of the specification (five words, not lazy), a token with a full stop between
  blanks, and a transcript of eight words.
\<close>

theorem responsiveness_classification_amended_witness:
  "trim ''Good morning, I slept okay'' \<noteq> []
   \<and> responsiveness (state (recordUserResponse ''Good morning, I slept okay'' fresh_coach))
       = conversing
   \<and> trim '' Yeah. '' \<noteq> []
   \<and> responsiveness (state (recordUserResponse '' Yeah. '' fresh_coach)) = minimal
   \<and> trim ''I think I could sleep a little more'' \<noteq> []
   \<and> responsiveness
        (state (recordUserResponse ''I think I could sleep a little more'' fresh_coach))
       = alert"
proof -
  have h1: "trim ''Good morning, I slept okay'' \<noteq> []" by code_simp
  have l1: "\<not> lazy_acknowledgment ''Good morning, I slept okay''" by code_simp
  have w1: "whitespace_separated_words ''Good morning, I slept okay'' = 5" by code_simp
  have h2: "trim '' Yeah. '' \<noteq> []" by code_simp
  have l2: "lazy_acknowledgment '' Yeah. ''" by code_simp
  have h3: "trim ''I think I could sleep a little more'' \<noteq> []" by code_simp
  have l3: "\<not> lazy_acknowledgment ''I think I could sleep a little more''" by code_simp
  have w3: "whitespace_separated_words ''I think I could sleep a little more'' = 8"
    by code_simp
  from responsiveness_classification_amended [OF h1, of fresh_coach] l1 w1
  have r1: "responsiveness
              (state (recordUserResponse ''Good morning, I slept okay'' fresh_coach))
            = conversing"
    by simp
  from responsiveness_classification_amended [OF h2, of fresh_coach] l2
  have r2: "responsiveness (state (recordUserResponse '' Yeah. '' fresh_coach)) = minimal"
    by simp
  from responsiveness_classification_amended [OF h3, of fresh_coach] l3 w3
  have r3: "responsiveness
              (state (recordUserResponse ''I think I could sleep a little more'' fresh_coach))
            = alert"
    by simp
  from h1 r1 h2 r2 h3 r3 show ?thesis by blast
qed

text \<open>The lazy patterns on three short answers, and a transcript of eight words.\<close>

lemma isLazy_examples:
  "isLazy '' Yeah. ''" "isLazy ''Mm''" "\<not> isLazy ''ok!''" "\<not> isLazy ''ok..''"
  by code_simp+

lemma classify_eight_words: "classify ''I think I could sleep a little more'' = alert"
  by code_simp

subsection \<open>The tool selection against the specification\<close>

lemma priority_curated_list: "priority b = curated_list b"
  by (simp add: priority_def curated_list_def TOOL_PRIORITY_def)

lemma repeatableTools_applicable_pool: "repeatableTools b = applicable_pool b"
  by (simp add: repeatableTools_def applicable_pool_def)

lemma first_fresh_tool_find:
  "first_fresh_tool used avail xs = find (\<lambda>tool. tool \<notin> set used \<and> tool \<in> set avail) xs"
  by (induction xs) simp_all

lemma js_index_rem:
  assumes "0 \<le> a" and "xs \<noteq> []"
  shows "js_index xs (js_rem a (int (length xs))) = Some (xs ! (nat a mod length xs))"
proof -
  have n: "0 < int (length xs)" using assms(2) by simp
  have "js_rem a (int (length xs)) = a mod int (length xs)"
    using assms(1) by (simp add: js_rem_def)
  moreover have "0 \<le> a mod int (length xs)" "a mod int (length xs) < int (length xs)"
    using n by simp_all
  moreover have "nat (a mod int (length xs)) = nat a mod length xs"
    using assms(1) by (simp add: nat_mod_distrib)
  ultimately show ?thesis by (simp add: js_index_def)
qed

lemma applicable_pool_not_empty: "applicable_pool b \<noteq> []"
  by (simp add: applicable_pool_def movementRepeatables_def zenRepeatables_def
      generalRepeatables_def)

lemma getNextTool_refines:
  assumes "0 \<le> silenceCount (state b)"
  shows "getNextTool b = getNextTool_spec b"
proof (cases "find (\<lambda>tool. tool \<notin> set (toolsUsed (state b)) \<and> tool \<in> set (toolsAvailable (state b)))
             (curated_list b)")
  case (Some tool)
  then show ?thesis
    by (simp add: getNextTool_def getNextTool_spec_def first_fresh_tool_find
        priority_curated_list)
next
  case None
  let ?r = "filter (\<lambda>tool. tool \<in> set (curated_list b)) (applicable_pool b)"
  show ?thesis
  proof (cases "?r = []")
    case True
    with None show ?thesis
      using js_index_rem [OF assms applicable_pool_not_empty, of b]
      by (simp add: getNextTool_def getNextTool_spec_def first_fresh_tool_find
          priority_curated_list repeatableTools_applicable_pool Let_def
          applicable_pool_not_empty)
  next
    case False
    with None show ?thesis
      using js_index_rem [OF assms False]
      by (simp add: getNextTool_def getNextTool_spec_def first_fresh_tool_find
          priority_curated_list repeatableTools_applicable_pool Let_def)
  qed
qed

text \<open>The silence count of a session is never negative, so this covers every session.\<close>

lemma getNextTool_refines_after_calls:
  "getNextTool (run_calls cs (new_WakeSessionBrain pid prefs ctx now))
   = getNextTool_spec (run_calls cs (new_WakeSessionBrain pid prefs ctx now))"
  using run_calls_range [OF new_WakeSessionBrain_range, of cs pid prefs ctx now]
  by (simp add: counters_in_range_def getNextTool_refines)

lemma getNextTool_spec_not_none: "getNextTool_spec b \<noteq> None"
  by (simp add: getNextTool_spec_def Let_def applicable_pool_not_empty split: option.splits)

text \<open>
  Claim C3. With a silence count that is not negative, \<^verbatim>\<open>getNextTool\<close> returns what the
  specification says: the first tool of the persona's curated list for the phase (the
  morning-coach list for a persona without a table) that is unused and available; when
  there is none, the element at position silence count modulo length of the applicable
  repeatable pool restricted to the curated list, or of the whole pool when the restriction
  is empty. It returns a tool whenever the applicable pool is not empty, and the three
  pools are not empty.
\<close>

theorem getNextTool_selection:
  assumes "0 \<le> silenceCount (state b)"
  shows "getNextTool b = getNextTool_spec b
         \<and> (applicable_pool b \<noteq> [] \<longrightarrow> getNextTool b \<noteq> None)"
  using getNextTool_refines [OF assms] getNextTool_spec_not_none [of b] by simp

text \<open>
  All five curated tools of \<open>soft_chat\<close> are used; the general pool restricted to them has
  four tools, and silence count 5 picks the one at position 1.
\<close>

theorem getNextTool_selection_witness:
  "0 \<le> silenceCount (state rotating_coach)
   \<and> applicable_pool rotating_coach \<noteq> []
   \<and> getNextTool rotating_coach = Some first_step_insight
   \<and> getNextTool_spec rotating_coach = Some first_step_insight"
proof -
  have h: "0 \<le> silenceCount (state rotating_coach)" by code_simp
  have s: "getNextTool_spec rotating_coach = Some first_step_insight" by code_simp
  show ?thesis
    using getNextTool_selection [OF h] h s by (simp add: applicable_pool_not_empty)
qed

text \<open>The two branches of the selection, computed by the code itself.\<close>

lemma getNextTool_examples:
  "getNextTool fresh_coach = Some greeting"
  "getNextTool rotating_coach = Some first_step_insight"
  "getNextTool (rotating_coach\<lparr>state := (state rotating_coach)\<lparr>silenceCount := 6\<rparr>\<rparr>)
   = Some interesting_fact"
  "getNextTool (markComplete rotating_coach) = Some challenge"
  by code_simp+

subsection \<open>What generating an instruction changes\<close>

lemma distinct_curated_list: "distinct (curated_list b)"
  by (cases "phase (state b)") (simp_all add: curated_list_def)

lemma find_filter_Cons: "filter P xs = t # rest \<Longrightarrow> find P xs = Some t"
  by (induction xs) (auto split: if_splits)

lemma getNextTool_fresh_curated:
  "fresh_curated b = tool # rest \<Longrightarrow> getNextTool b = Some tool"
  by (simp add: getNextTool_def first_fresh_tool_find priority_curated_list
      fresh_curated_def find_filter_Cons)

lemma generateInstruction_frame:
  "getNextTool b = Some tool \<Longrightarrow>
   generateInstruction b =
     with_toolsUsed (if tool \<in> set (toolsUsed (state b)) then toolsUsed (state b)
                     else toolsUsed (state b) @ [tool]) b"
  by (simp add: generateInstruction_def markToolUsed_def markToolUsed_state_def
      with_toolsUsed_def)

lemma curated_list_with_toolsUsed: "curated_list (with_toolsUsed used b) = curated_list b"
  by (simp add: curated_list_def with_toolsUsed_def)

lemma fresh_curated_with_toolsUsed:
  "fresh_curated (with_toolsUsed used b)
   = filter (\<lambda>tool. tool \<notin> set used \<and> tool \<in> set (toolsAvailable (state b)))
       (curated_list b)"
  by (simp add: fresh_curated_def curated_list_with_toolsUsed)
     (simp add: with_toolsUsed_def)

lemma fresh_curated_step:
  assumes "fresh_curated b = tool # rest"
  shows "generateInstruction b = with_toolsUsed (toolsUsed (state b) @ [tool]) b"
    and "fresh_curated (generateInstruction b) = rest"
proof -
  let ?P = "\<lambda>x. x \<notin> set (toolsUsed (state b)) \<and> x \<in> set (toolsAvailable (state b))"
  have "tool \<in> set (filter ?P (curated_list b))"
    using assms by (simp add: fresh_curated_def)
  then have unused: "tool \<notin> set (toolsUsed (state b))" by simp
  show g: "generateInstruction b = with_toolsUsed (toolsUsed (state b) @ [tool]) b"
    using generateInstruction_frame [OF getNextTool_fresh_curated [OF assms]] unused
    by simp
  have "distinct (tool # rest)"
    using distinct_filter [OF distinct_curated_list, of ?P b] assms
    by (simp add: fresh_curated_def)
  then have rest: "filter (\<lambda>x. x \<noteq> tool) (tool # rest) = rest"
    by (auto simp: filter_id_conv)
  have "fresh_curated (generateInstruction b)
        = filter (\<lambda>x. x \<notin> set (toolsUsed (state b) @ [tool])
                       \<and> x \<in> set (toolsAvailable (state b))) (curated_list b)"
    by (simp only: g fresh_curated_with_toolsUsed)
  also have "\<dots> = filter (\<lambda>x. x \<noteq> tool) (fresh_curated b)"
    unfolding fresh_curated_def filter_filter by (rule filter_cong) auto
  finally show "fresh_curated (generateInstruction b) = rest"
    unfolding assms by (simp only: rest)
qed

lemma with_toolsUsed_twice:
  "with_toolsUsed used' (with_toolsUsed used b) = with_toolsUsed used' b"
  by (simp add: with_toolsUsed_def)

lemma toolsUsed_with_toolsUsed: "toolsUsed (state (with_toolsUsed used b)) = used"
  by (simp add: with_toolsUsed_def)

lemma with_toolsUsed_same: "with_toolsUsed (toolsUsed (state b)) b = b"
  by (simp add: with_toolsUsed_def)

lemma generateInstruction_repeated:
  "k \<le> length (fresh_curated b) \<Longrightarrow>
   (generateInstruction ^^ k) b
     = with_toolsUsed (toolsUsed (state b) @ take k (fresh_curated b)) b
   \<and> fresh_curated ((generateInstruction ^^ k) b) = drop k (fresh_curated b)"
proof (induction k arbitrary: b)
  case 0
  then show ?case by (simp add: with_toolsUsed_same)
next
  case (Suc k)
  then obtain tool rest where f: "fresh_curated b = tool # rest"
    by (cases "fresh_curated b") simp_all
  let ?b = "generateInstruction b"
  note step = fresh_curated_step [OF f]
  have "k \<le> length (fresh_curated ?b)" using Suc.prems f step(2) by simp
  note both = Suc.IH [OF this, unfolded step(2)]
  note IH = both [THEN conjunct1] both [THEN conjunct2]
  have unfold: "(generateInstruction ^^ Suc k) b = (generateInstruction ^^ k) ?b"
    by (simp add: funpow_swap1)
  have used: "toolsUsed (state ?b) = toolsUsed (state b) @ [tool]"
    by (simp add: step(1) toolsUsed_with_toolsUsed)
  have same: "with_toolsUsed xs ?b = with_toolsUsed xs b" for xs
    by (simp add: step(1) with_toolsUsed_twice)
  show ?case
  proof
    show "(generateInstruction ^^ Suc k) b
          = with_toolsUsed (toolsUsed (state b) @ take (Suc k) (fresh_curated b)) b"
      unfolding unfold by (simp add: IH(1) used same f)
    show "fresh_curated ((generateInstruction ^^ Suc k) b) = drop (Suc k) (fresh_curated b)"
      unfolding unfold by (simp add: IH(2) f)
  qed
qed

text \<open>
  Claim C9. When \<^verbatim>\<open>getNextTool\<close> yields a tool, \<^verbatim>\<open>generateInstruction\<close> leaves the brain as
  it was except for \<open>toolsUsed\<close>, which gets that tool appended unless it is there already.
  So \<open>k\<close> calls in a row, for \<open>k\<close> up to the number of curated tools of the phase that are
  unused and available, append the first \<open>k\<close> of these tools in the order of the curated
  list, one per call, and leave the others as the unused curated tools.
\<close>

theorem generateInstruction_effect:
  "(getNextTool b = Some tool \<longrightarrow>
      generateInstruction b =
        with_toolsUsed (if tool \<in> set (toolsUsed (state b)) then toolsUsed (state b)
                        else toolsUsed (state b) @ [tool]) b)
   \<and> (k \<le> length (fresh_curated b) \<longrightarrow>
        (generateInstruction ^^ k) b
          = with_toolsUsed (toolsUsed (state b) @ take k (fresh_curated b)) b
        \<and> fresh_curated ((generateInstruction ^^ k) b) = drop k (fresh_curated b))"
  using generateInstruction_frame [of b tool] generateInstruction_repeated [of k b]
  by blast

text \<open>A new morning-coach session: four calls use up the four tools of \<open>brain_wakeup\<close>.\<close>

theorem generateInstruction_effect_witness:
  "getNextTool fresh_coach = Some greeting
   \<and> generateInstruction fresh_coach = with_toolsUsed [greeting] fresh_coach
   \<and> (4::nat) \<le> length (fresh_curated fresh_coach)
   \<and> toolsUsed (state ((generateInstruction ^^ 4) fresh_coach))
       = [greeting, how_did_you_sleep, interesting_fact, news]
   \<and> fresh_curated ((generateInstruction ^^ 4) fresh_coach) = []"
proof -
  have g: "getNextTool fresh_coach = Some greeting" by code_simp
  have f: "fresh_curated fresh_coach = [greeting, how_did_you_sleep, interesting_fact, news]"
    by code_simp
  have u: "toolsUsed (state fresh_coach) = []"
    by (simp add: fresh_coach_def new_WakeSessionBrain_def)
  have k: "(4::nat) \<le> length (fresh_curated fresh_coach)" by (simp add: f)
  note e = generateInstruction_effect [of fresh_coach greeting 4]
  from e g u have e1: "generateInstruction fresh_coach = with_toolsUsed [greeting] fresh_coach"
    by simp
  from e k have e2:
    "(generateInstruction ^^ 4) fresh_coach
       = with_toolsUsed (toolsUsed (state fresh_coach) @ take 4 (fresh_curated fresh_coach))
           fresh_coach"
    and e3: "fresh_curated ((generateInstruction ^^ 4) fresh_coach)
               = drop 4 (fresh_curated fresh_coach)"
    by blast+
  have e2': "toolsUsed (state ((generateInstruction ^^ 4) fresh_coach))
               = [greeting, how_did_you_sleep, interesting_fact, news]"
    unfolding e2 by (simp add: toolsUsed_with_toolsUsed u f)
  have e3': "fresh_curated ((generateInstruction ^^ 4) fresh_coach) = []"
    unfolding e3 by (simp add: f)
  from g e1 k e2' e3' show ?thesis by blast
qed

subsection \<open>A lazy acknowledgment\<close>

lemma classify_lazy: "isLazy t \<Longrightarrow> classify t = minimal"
  by (simp add: classify_def)

lemma checkVoiceCommands_no_command:
  "\<not> says_skip_news t \<Longrightarrow> \<not> says_skip_weather t \<Longrightarrow> \<not> says_awake t \<Longrightarrow>
   checkVoiceCommands t s = s"
  by (simp add: checkVoiceCommands_def)

text \<open>
  Claim C6. A transcript that matches a lazy pattern and holds no voice command is
  classified \<open>minimal\<close>; \<^verbatim>\<open>recordUserResponse\<close> then adds 1 to the response count, takes 2
  from the silence count and 1 from the escalation level, both floored at 0, stores the
  transcript and keeps the phase.
\<close>

theorem lazy_response_effect:
  assumes "isLazy t"
    and "\<not> says_skip_news t" and "\<not> says_skip_weather t" and "\<not> says_awake t"
  shows "responsiveness (state (recordUserResponse t b)) = minimal
       \<and> responseCount (state (recordUserResponse t b)) = responseCount (state b) + 1
       \<and> silenceCount (state (recordUserResponse t b)) = max 0 (silenceCount (state b) - 2)
       \<and> escalationLevel (state (recordUserResponse t b))
           = max 0 (escalationLevel (state b) - 1)
       \<and> lastUserResponse (state (recordUserResponse t b)) = Some t
       \<and> phase (state (recordUserResponse t b)) = phase (state b)"
  using assms
  by (simp add: recordUserResponse_def recordUserResponse_state_def Let_def classify_lazy
      checkVoiceCommands_no_command)

text \<open>Scenario C of the specification: "Yes" in \<open>soft_chat\<close> with one response so far.\<close>

theorem lazy_response_effect_witness:
  "isLazy ''Yes'' \<and> \<not> says_skip_news ''Yes'' \<and> \<not> says_skip_weather ''Yes''
   \<and> \<not> says_awake ''Yes''
   \<and> phase (state chatting_coach) = soft_chat
   \<and> responseCount (state chatting_coach) = 1
   \<and> responseCount (state (recordUserResponse ''Yes'' chatting_coach)) = 2
   \<and> silenceCount (state (recordUserResponse ''Yes'' chatting_coach)) = 0
   \<and> phase (state (recordUserResponse ''Yes'' chatting_coach)) = soft_chat"
proof -
  have l: "isLazy ''Yes''" by code_simp
  have n: "\<not> says_skip_news ''Yes''" by code_simp
  have w: "\<not> says_skip_weather ''Yes''" by code_simp
  have a: "\<not> says_awake ''Yes''" by code_simp
  have c: "phase (state chatting_coach) = soft_chat"
    "responseCount (state chatting_coach) = 1" "silenceCount (state chatting_coach) = 1"
    by (simp_all add: chatting_coach_def)
  show ?thesis
    using lazy_response_effect [OF l n w a, of chatting_coach] l n w a c by simp
qed

subsection \<open>The available tools and the preferences\<close>

lemma apply_call_toolsAvailable:
  "toolsAvailable (state (apply_call c b)) = toolsAvailable (state b)"
  by (cases c)
     (simp_all add: recordUserResponse_def recordUserResponse_state_def Let_def
        checkVoiceCommands_keeps advance_on_engagement_keeps
        recordSilence_def recordSilence_state_def markToolUsed_def markToolUsed_state_def
        generateInstruction_def markComplete_def split: option.splits)

lemma run_calls_toolsAvailable:
  "toolsAvailable (state (run_calls cs b)) = toolsAvailable (state b)"
  by (induction cs arbitrary: b) (simp_all add: apply_call_toolsAvailable)

lemma checkVoiceCommands_preferences:
  "preferences (checkVoiceCommands t s) =
     (preferences s)
       \<lparr>includeNews := includeNews (preferences s) \<and> \<not> says_skip_news t,
        includeWeather := includeWeather (preferences s) \<and> \<not> says_skip_weather t\<rparr>"
  by (simp add: checkVoiceCommands_def Let_def)

lemma recordUserResponse_preferences:
  "preferences (state (recordUserResponse t b)) =
     (preferences (state b))
       \<lparr>includeNews := includeNews (preferences (state b)) \<and> \<not> says_skip_news t,
        includeWeather := includeWeather (preferences (state b)) \<and> \<not> says_skip_weather t\<rparr>"
  by (simp add: recordUserResponse_def recordUserResponse_state_def Let_def
      checkVoiceCommands_preferences advance_on_engagement_keeps)

lemma recordSilence_state_preferences:
  "preferences (recordSilence_state s) = preferences s"
  by (simp add: recordSilence_state_def Let_def)

lemma apply_call_preferences_off:
  "(includeNews (preferences (state (apply_call c b))) \<longrightarrow> includeNews (preferences (state b)))
   \<and> (includeWeather (preferences (state (apply_call c b)))
        \<longrightarrow> includeWeather (preferences (state b)))"
  by (cases c)
     (simp_all add: recordUserResponse_preferences recordSilence_def
        recordSilence_state_preferences markToolUsed_def markToolUsed_state_def
        generateInstruction_def markComplete_def split: option.splits)

lemma run_calls_preferences_off:
  "(includeNews (preferences (state (run_calls cs b))) \<longrightarrow> includeNews (preferences (state b)))
   \<and> (includeWeather (preferences (state (run_calls cs b)))
        \<longrightarrow> includeWeather (preferences (state b)))"
proof (induction cs arbitrary: b)
  case Nil
  then show ?case by simp
next
  case (Cons c cs)
  from Cons.IH [of "apply_call c b"] apply_call_preferences_off [of c b]
  show ?case by simp
qed

text \<open>
  No sequence of calls writes \<open>toolsAvailable\<close> after the constructor. A transcript with
  "skip news" or "no news" turns the preference \<open>includeNews\<close> off, one with "skip weather"
  or "no weather" turns \<open>includeWeather\<close> off, and no call turns either of them on.
\<close>

lemma toolsAvailable_never_written:
  "toolsAvailable (state (run_calls cs b)) = toolsAvailable (state b)
   \<and> (says_skip_news t \<longrightarrow> \<not> includeNews (preferences (state (recordUserResponse t b))))
   \<and> (says_skip_weather t
        \<longrightarrow> \<not> includeWeather (preferences (state (recordUserResponse t b))))
   \<and> (includeNews (preferences (state (run_calls cs b)))
        \<longrightarrow> includeNews (preferences (state b)))
   \<and> (includeWeather (preferences (state (run_calls cs b)))
        \<longrightarrow> includeWeather (preferences (state b)))"
  using run_calls_preferences_off [of cs b]
  by (simp add: run_calls_toolsAvailable recordUserResponse_preferences)

text \<open>
  Claim C4 at the input where the code departs from it. On a new session with every
  preference on, the utterance "skip weather" turns the preference \<open>includeWeather\<close> off,
  but the weather tool stays in \<open>toolsAvailable\<close>, and it is the next tool that
  \<^verbatim>\<open>getNextTool\<close> returns. The same holds for "skip news" and the news tool in
  \<open>toolsAvailable\<close>.
\<close>

theorem skip_weather_keeps_weather_tool:
  "says_skip_weather ''skip weather''
   \<and> includeWeather (preferences (state fresh_coach))
   \<and> \<not> includeWeather (preferences (state (recordUserResponse ''skip weather'' fresh_coach)))
   \<and> weather \<in> set (toolsAvailable (state fresh_coach))
   \<and> weather \<in> set (toolsAvailable (state (recordUserResponse ''skip weather'' fresh_coach)))
   \<and> getNextTool (recordUserResponse ''skip weather'' fresh_coach) = Some weather
   \<and> says_skip_news ''skip news''
   \<and> \<not> includeNews (preferences (state (recordUserResponse ''skip news'' fresh_coach)))
   \<and> news \<in> set (toolsAvailable (state (recordUserResponse ''skip news'' fresh_coach)))"
  by code_simp

subsection \<open>The tools of a new session\<close>

lemma getAvailableTools_toggles:
  "weather \<in> set (getAvailableTools prefs) = includeWeather prefs"
  "calendar \<in> set (getAvailableTools prefs) = includeCalendar prefs"
  "news \<in> set (getAvailableTools prefs) = includeNews prefs"
  "gentle_story \<in> set (getAvailableTools prefs)"
  by (simp_all add: getAvailableTools_def)

lemma getAvailableTools_base:
  "set [greeting, how_did_you_sleep, gratitude, plans_today, interesting_fact, gentle_story,
        body_awareness, breathing, direct_question, humor, coffee_mention,
        first_step_insight, accountability, guilt, challenge, sit_up_request,
        stand_up_request, walk_request, coffee_walk, movement_verify]
   \<subseteq> set (getAvailableTools prefs)"
  by (simp add: getAvailableTools_def)

text \<open>
  Claim C5 at the input where the code departs from it. With every preference off, also
  \<open>includeStories\<close>, the tools of a new session contain \<open>gentle_story\<close>: the fixed base list
  holds it, so the test of \<open>includeStories\<close> only decides whether it is there twice. A
  zen-guide session with stories off is offered the story as its fifth tool.
\<close>

theorem gentle_story_without_stories:
  "includeStories no_preferences = False
   \<and> gentle_story \<in> set (getAvailableTools no_preferences)
   \<and> gentle_story \<in> set (toolsAvailable
        (state (new_WakeSessionBrain ''zen-guide'' no_preferences empty_context 0)))
   \<and> getNextTool ((generateInstruction ^^ 4)
        (new_WakeSessionBrain ''zen-guide'' no_preferences empty_context 0))
       = Some gentle_story"
  by code_simp

end
